theory Spec2Isabelle
  imports Main
begin

section \<open>The click counter of contador_cliques_mvc.py\<close>

text \<open>
  The program has three classes: \<^verbatim>\<open>ClickCounterModel\<close> (a counter and a list of
  observers), \<^verbatim>\<open>ClickCounterView\<close> (a label and two buttons with one callback slot
  each) and \<^verbatim>\<open>ClickCounterController\<close> (an \<^verbatim>\<open>Observer\<close> that wires the two).
  Their methods mutate objects in place; here every method takes the state of the
  program and returns the new one. A method that can raise returns a sum: \<open>Inl\<close> carries
  the exception together with the state at the moment it was raised, \<open>Inr\<close> the state on
  normal return.

  The console lines written by \<^verbatim>\<open>print\<close> and the layout of the window are left out;
  no operation reads them back.
\<close>

subsection \<open>Objects, exceptions, callbacks\<close>

text \<open>
  The objects that can be handed to \<^verbatim>\<open>add_observer\<close>, by what Python can tell about
  them. The number is the identity of the object; \<open>==\<close> on these objects is identity,
  as for every class that does not define \<^verbatim>\<open>__eq__\<close>.
  \<^item> \<open>ControllerInst\<close>: the \<^verbatim>\<open>ClickCounterController\<close> of the program;
  \<^item> \<open>ObserverInst n\<close>: an instance of some other concrete subclass of \<^verbatim>\<open>Observer\<close>.
    The body of its \<^verbatim>\<open>update\<close> is not part of this file of the program; it is given
    the body of the interface method (\<^verbatim>\<open>pass\<close>): it returns and changes nothing;
  \<^item> \<open>DuckInst n\<close>: an object that has a no-argument \<^verbatim>\<open>update\<close> method and whose
    class does not derive from \<^verbatim>\<open>Observer\<close>;
  \<^item> \<open>PlainInst n\<close>: an object with no \<^verbatim>\<open>update\<close> attribute.
\<close>

datatype pyobj =
    ControllerInst
  | ObserverInst nat
  | DuckInst nat
  | PlainInst nat

text \<open>\<^verbatim>\<open>isinstance(observer, Observer)\<close>: the class of the object derives from the
  abstract base class.\<close>

fun isinstance_Observer :: "pyobj \<Rightarrow> bool" where
  "isinstance_Observer ControllerInst = True"
| "isinstance_Observer (ObserverInst n) = True"
| "isinstance_Observer (DuckInst n) = False"
| "isinstance_Observer (PlainInst n) = False"

text \<open>The object exposes a no-argument \<^verbatim>\<open>update\<close> method.\<close>

fun has_update :: "pyobj \<Rightarrow> bool" where
  "has_update ControllerInst = True"
| "has_update (ObserverInst n) = True"
| "has_update (DuckInst n) = True"
| "has_update (PlainInst n) = False"

datatype error = TypeError | ValueError | AttributeError

text \<open>
  The zero-argument callables a callback slot of the view can hold: the two bound
  methods \<^verbatim>\<open>_on_click\<close> and \<^verbatim>\<open>_on_reset\<close> of the controller, and any other
  callable, which returns and changes nothing.
\<close>

datatype callback = Controller_on_click | Controller_on_reset | Callable nat

subsection \<open>State\<close>

record ClickCounterModel =
  count :: int
  observers :: "pyobj list"

record ClickCounterView =
  count_display_text :: string
  count_display_foreground :: string
  click_listener :: "callback option"
  reset_listener :: "callback option"

text \<open>
  The program has one model and one view. \<open>calls\<close> and \<open>invoked\<close> are not fields of
  the program: they record, in order, each object whose \<^verbatim>\<open>update()\<close> was entered and
  each callback that was entered, so that properties of notifications can be stated.
\<close>

record world =
  model :: ClickCounterModel
  view :: ClickCounterView
  calls :: "pyobj list"
  invoked :: "callback list"

type_synonym result = "(error \<times> world) + world"

text \<open>The state once a call is over, whether it returned or raised.\<close>

definition after :: "result \<Rightarrow> world" where
  "after r = (case r of Inl (e, w) \<Rightarrow> w | Inr w \<Rightarrow> w)"

text \<open>\<^verbatim>\<open>ClickCounterModel.__init__\<close>.\<close>

definition ClickCounterModel_init :: ClickCounterModel where
  "ClickCounterModel_init = \<lparr>count = 0, observers = []\<rparr>"

text \<open>\<^verbatim>\<open>ClickCounterView.__init__\<close>: the label shows "0" in blue, both slots are None.\<close>

definition ClickCounterView_init :: ClickCounterView where
  "ClickCounterView_init =
     \<lparr>count_display_text = ''0'', count_display_foreground = ''#0066cc'',
      click_listener = None, reset_listener = None\<rparr>"

text \<open>A freshly constructed model beside a view \<open>v\<close>, nothing called yet.\<close>

definition new_world :: "ClickCounterView \<Rightarrow> world" where
  "new_world v = \<lparr>model = ClickCounterModel_init, view = v, calls = [], invoked = []\<rparr>"

subsection \<open>\<^verbatim>\<open>str\<close> on integers\<close>

definition digit_char :: "nat \<Rightarrow> char" where
  "digit_char d = ''0123456789'' ! d"

fun str_nat :: "nat \<Rightarrow> string" where
  "str_nat n = (if n < 10 then [digit_char n] else str_nat (n div 10) @ [digit_char (n mod 10)])"

declare str_nat.simps [simp del]

definition py_str :: "int \<Rightarrow> string" where
  "py_str i = (if i < 0 then CHR ''-'' # str_nat (nat (- i)) else str_nat (nat i))"

subsection \<open>ClickCounterView\<close>

definition set_click_listener :: "callback option \<Rightarrow> world \<Rightarrow> world" where
  "set_click_listener cb w = w\<lparr>view := (view w)\<lparr>click_listener := cb\<rparr>\<rparr>"

definition set_reset_listener :: "callback option \<Rightarrow> world \<Rightarrow> world" where
  "set_reset_listener cb w = w\<lparr>view := (view w)\<lparr>reset_listener := cb\<rparr>\<rparr>"

definition update_display :: "int \<Rightarrow> ClickCounterView \<Rightarrow> ClickCounterView" where
  "update_display c v =
     (let v1 = v\<lparr>count_display_text := py_str c\<rparr>
      in if c > 0 then v1\<lparr>count_display_foreground := ''#0066cc''\<rparr>
         else v1\<lparr>count_display_foreground := ''#999999''\<rparr>)"

subsection \<open>ClickCounterModel and the controller's \<^verbatim>\<open>update\<close>\<close>

definition get_count :: "ClickCounterModel \<Rightarrow> int" where
  "get_count m = count m"

text \<open>\<^verbatim>\<open>ClickCounterController.update\<close>: read the count, push it to the view.\<close>

definition controller_update :: "world \<Rightarrow> world" where
  "controller_update w = (let c = get_count (model w) in w\<lparr>view := update_display c (view w)\<rparr>)"

text \<open>
  \<^verbatim>\<open>observer.update()\<close>: the method is looked up on the object. An object without it
  raises AttributeError; the others are entered (and recorded in \<open>calls\<close>).
\<close>

fun call_update :: "pyobj \<Rightarrow> world \<Rightarrow> result" where
  "call_update ControllerInst w = Inr (controller_update (w\<lparr>calls := calls w @ [ControllerInst]\<rparr>))"
| "call_update (ObserverInst n) w = Inr (w\<lparr>calls := calls w @ [ObserverInst n]\<rparr>)"
| "call_update (DuckInst n) w = Inr (w\<lparr>calls := calls w @ [DuckInst n]\<rparr>)"
| "call_update (PlainInst n) w = Inl (AttributeError, w)"

text \<open>
  \<^verbatim>\<open>_notify_observers\<close>: the \<^verbatim>\<open>for\<close> loop over \<^verbatim>\<open>self._observers\<close>. No \<^verbatim>\<open>update\<close>
  above changes that list, so the loop runs over the list as it is on entry. An
  exception leaves the loop.
\<close>

fun notify_loop :: "pyobj list \<Rightarrow> world \<Rightarrow> result" where
  "notify_loop [] w = Inr w"
| "notify_loop (ob # obs) w =
     (case call_update ob w of Inl x \<Rightarrow> Inl x | Inr w' \<Rightarrow> notify_loop obs w')"

definition notify_observers :: "world \<Rightarrow> result" where
  "notify_observers w = notify_loop (observers (model w)) w"

definition increment :: "world \<Rightarrow> result" where
  "increment w = notify_observers (w\<lparr>model := (model w)\<lparr>count := count (model w) + 1\<rparr>\<rparr>)"

definition reset :: "world \<Rightarrow> result" where
  "reset w = notify_observers (w\<lparr>model := (model w)\<lparr>count := 0\<rparr>\<rparr>)"

definition add_observer :: "pyobj \<Rightarrow> world \<Rightarrow> result" where
  "add_observer ob w =
     (if \<not> isinstance_Observer ob then Inl (TypeError, w)
      else Inr (w\<lparr>model := (model w)\<lparr>observers := observers (model w) @ [ob]\<rparr>\<rparr>))"

text \<open>\<^verbatim>\<open>list.remove(x)\<close>: drops the first element equal to \<open>x\<close>, ValueError when there
  is none.\<close>

fun list_remove :: "'a \<Rightarrow> 'a list \<Rightarrow> error + 'a list" where
  "list_remove x [] = Inl ValueError"
| "list_remove x (y # ys) =
     (if y = x then Inr ys
      else (case list_remove x ys of Inl e \<Rightarrow> Inl e | Inr zs \<Rightarrow> Inr (y # zs)))"

definition remove_observer :: "pyobj \<Rightarrow> world \<Rightarrow> result" where
  "remove_observer ob w =
     (if ob \<in> set (observers (model w))
      then (case list_remove ob (observers (model w)) of
              Inl e \<Rightarrow> Inl (e, w)
            | Inr obs \<Rightarrow> Inr (w\<lparr>model := (model w)\<lparr>observers := obs\<rparr>\<rparr>))
      else Inr w)"

subsection \<open>ClickCounterController and the press handlers\<close>

definition controller_on_click :: "world \<Rightarrow> result" where
  "controller_on_click w = increment w"

definition controller_on_reset :: "world \<Rightarrow> result" where
  "controller_on_reset w = reset w"

text \<open>Calling what a slot holds; the call is recorded in \<open>invoked\<close>.\<close>

fun call_callback :: "callback \<Rightarrow> world \<Rightarrow> result" where
  "call_callback Controller_on_click w =
     controller_on_click (w\<lparr>invoked := invoked w @ [Controller_on_click]\<rparr>)"
| "call_callback Controller_on_reset w =
     controller_on_reset (w\<lparr>invoked := invoked w @ [Controller_on_reset]\<rparr>)"
| "call_callback (Callable n) w = Inr (w\<lparr>invoked := invoked w @ [Callable n]\<rparr>)"

text \<open>\<^verbatim>\<open>_on_click_pressed\<close> and \<^verbatim>\<open>_on_reset_pressed\<close>: None is falsy, a callable is
  truthy.\<close>

definition on_click_pressed :: "world \<Rightarrow> result" where
  "on_click_pressed w =
     (case click_listener (view w) of None \<Rightarrow> Inr w | Some cb \<Rightarrow> call_callback cb w)"

definition on_reset_pressed :: "world \<Rightarrow> result" where
  "on_reset_pressed w =
     (case reset_listener (view w) of None \<Rightarrow> Inr w | Some cb \<Rightarrow> call_callback cb w)"

text \<open>\<^verbatim>\<open>ClickCounterController.__init__(model, view)\<close>: set both listeners, register
  with the model, then one direct \<^verbatim>\<open>self.update()\<close>.\<close>

definition controller_init :: "world \<Rightarrow> result" where
  "controller_init w =
     (let w1 = set_click_listener (Some Controller_on_click) w;
          w2 = set_reset_listener (Some Controller_on_reset) w1
      in case add_observer ControllerInst w2 of
           Inl x \<Rightarrow> Inl x
         | Inr w3 \<Rightarrow> call_update ControllerInst w3)"

subsection \<open>Sequences of calls\<close>

text \<open>The public operations of the model, as a client calls them one after the other.
  A client that catches an exception goes on from the state the exception left.\<close>

datatype op = Increment | Reset | AddObserver pyobj | RemoveObserver pyobj

fun exec_op :: "op \<Rightarrow> world \<Rightarrow> result" where
  "exec_op Increment w = increment w"
| "exec_op Reset w = reset w"
| "exec_op (AddObserver ob) w = add_observer ob w"
| "exec_op (RemoveObserver ob) w = remove_observer ob w"

definition run_ops :: "world \<Rightarrow> op list \<Rightarrow> world" where
  "run_ops w ops = foldl (\<lambda>w x. after (exec_op x w)) w ops"

text \<open>What can happen once the window is up: a press of either button, or a call of
  a public method of the model or of the view from elsewhere.\<close>

datatype event =
    ClickPressed
  | ResetPressed
  | ModelCall op
  | SetClickListener "callback option"
  | SetResetListener "callback option"
  | DisplayCall int

fun exec_event :: "event \<Rightarrow> world \<Rightarrow> result" where
  "exec_event ClickPressed w = on_click_pressed w"
| "exec_event ResetPressed w = on_reset_pressed w"
| "exec_event (ModelCall x) w = exec_op x w"
| "exec_event (SetClickListener cb) w = Inr (set_click_listener cb w)"
| "exec_event (SetResetListener cb) w = Inr (set_reset_listener cb w)"
| "exec_event (DisplayCall c) w = Inr (w\<lparr>view := update_display c (view w)\<rparr>)"

text \<open>The events that leave the wiring of the controller alone: every event but
  \<^verbatim>\<open>remove_observer(controller)\<close> and a call of \<^verbatim>\<open>update_display\<close> that does not come
  from the controller's \<^verbatim>\<open>update\<close>.\<close>

fun keeps_wiring :: "event \<Rightarrow> bool" where
  "keeps_wiring (ModelCall (RemoveObserver ob)) = (ob \<noteq> ControllerInst)"
| "keeps_wiring (DisplayCall c) = False"
| "keeps_wiring ClickPressed = True"
| "keeps_wiring ResetPressed = True"
| "keeps_wiring (ModelCall Increment) = True"
| "keeps_wiring (ModelCall Reset) = True"
| "keeps_wiring (ModelCall (AddObserver ob)) = True"
| "keeps_wiring (SetClickListener cb) = True"
| "keeps_wiring (SetResetListener cb) = True"

definition run_events :: "world \<Rightarrow> event list \<Rightarrow> world" where
  "run_events w evs = foldl (\<lambda>w x. after (exec_event x w)) w evs"

text \<open>The \<^verbatim>\<open>update()\<close> calls entered between state \<open>w\<close> and a later state \<open>w'\<close>.\<close>

definition new_calls :: "world \<Rightarrow> world \<Rightarrow> pyobj list" where
  "new_calls w w' = drop (length (calls w)) (calls w')"

text \<open>Number of \<^verbatim>\<open>increment()\<close> calls in \<open>ops\<close> after its last \<^verbatim>\<open>reset()\<close>, or in all of
  \<open>ops\<close> when it has none.\<close>

definition increments_since_reset :: "op list \<Rightarrow> nat" where
  "increments_since_reset ops =
     length (filter (\<lambda>x. x = Increment) (takeWhile (\<lambda>x. x \<noteq> Reset) (rev ops)))"

text \<open>Every entry of the observer list is an instance of \<^verbatim>\<open>Observer\<close>.\<close>

definition observers_ok :: "world \<Rightarrow> bool" where
  "observers_ok w = list_all isinstance_Observer (observers (model w))"

text \<open>The controller is registered, every entry of the list is an observer, and the
  label shows the count.\<close>

definition in_sync :: "world \<Rightarrow> bool" where
  "in_sync w \<longleftrightarrow>
     observers_ok w \<and> ControllerInst \<in> set (observers (model w)) \<and>
     count_display_text (view w) = py_str (get_count (model w))"

section \<open>Auxiliary facts\<close>

lemma update_display_idem: "update_display c (update_display c v) = update_display c v"
  by (simp add: update_display_def Let_def)

lemma update_display_listeners:
  "click_listener (update_display c v) = click_listener v"
  "reset_listener (update_display c v) = reset_listener v"
  "count_display_text (update_display c v) = py_str c"
  by (simp_all add: update_display_def Let_def)

lemma notify_loop_ok:
  "list_all isinstance_Observer obs \<Longrightarrow>
   notify_loop obs w =
     Inr (w\<lparr>calls := calls w @ obs,
            view := (if ControllerInst \<in> set obs
                     then update_display (count (model w)) (view w) else view w)\<rparr>)"
proof (induction obs arbitrary: w)
  case Nil
  show ?case by simp
next
  case (Cons ob obs)
  from Cons.prems have tl: "list_all isinstance_Observer obs" by simp
  show ?case
  proof (cases ob)
    case ControllerInst
    then show ?thesis
      by (simp add: Cons.IH [OF tl] controller_update_def get_count_def update_display_idem)
  next
    case (ObserverInst n)
    then show ?thesis by (simp add: Cons.IH [OF tl])
  next
    case (DuckInst n)
    with Cons.prems show ?thesis by simp
  next
    case (PlainInst n)
    with Cons.prems show ?thesis by simp
  qed
qed

lemma list_remove_remove1:
  "list_remove x xs = (if x \<in> set xs then Inr (remove1 x xs) else Inl ValueError)"
  by (induction xs) auto

lemma remove_observer_eq:
  "remove_observer ob w = Inr (w\<lparr>model := (model w)\<lparr>observers := remove1 ob (observers (model w))\<rparr>\<rparr>)"
  by (simp add: remove_observer_def list_remove_remove1 remove1_idem)

lemma run_ops_snoc: "run_ops w (ops @ [x]) = after (exec_op x (run_ops w ops))"
  by (simp add: run_ops_def)

lemma run_ops_Nil: "run_ops w [] = w"
  by (simp add: run_ops_def)

lemma increment_ok:
  "observers_ok w \<Longrightarrow>
   increment w =
     Inr (w\<lparr>model := (model w)\<lparr>count := count (model w) + 1\<rparr>,
            calls := calls w @ observers (model w),
            view := (if ControllerInst \<in> set (observers (model w))
                     then update_display (count (model w) + 1) (view w) else view w)\<rparr>)"
  by (simp add: increment_def notify_observers_def observers_ok_def notify_loop_ok)

lemma reset_ok:
  "observers_ok w \<Longrightarrow>
   reset w =
     Inr (w\<lparr>model := (model w)\<lparr>count := 0\<rparr>,
            calls := calls w @ observers (model w),
            view := (if ControllerInst \<in> set (observers (model w))
                     then update_display 0 (view w) else view w)\<rparr>)"
  by (simp add: reset_def notify_observers_def observers_ok_def notify_loop_ok)

lemma exec_op_ok: "observers_ok w \<Longrightarrow> observers_ok (after (exec_op x w))"
proof (cases x)
  case Increment
  assume "observers_ok w"
  then show ?thesis using Increment
    by (simp add: increment_ok after_def) (simp add: observers_ok_def)
next
  case Reset
  assume "observers_ok w"
  then show ?thesis using Reset
    by (simp add: reset_ok after_def) (simp add: observers_ok_def)
next
  case (AddObserver ob)
  assume "observers_ok w"
  then show ?thesis using AddObserver
    by (simp add: add_observer_def after_def observers_ok_def)
next
  case (RemoveObserver ob)
  assume "observers_ok w"
  then show ?thesis using RemoveObserver
    by (auto simp add: remove_observer_eq after_def observers_ok_def list_all_iff dest: notin_set_remove1)
qed

lemma run_ops_ok: "observers_ok w \<Longrightarrow> observers_ok (run_ops w ops)"
  by (induction ops rule: rev_induct) (simp_all add: run_ops_Nil run_ops_snoc exec_op_ok)

lemma new_world_ok: "observers_ok (new_world v)"
  by (simp add: observers_ok_def new_world_def ClickCounterModel_init_def)

lemma call_update_frame:
  "model (after (call_update ob w)) = model w"
  "invoked (after (call_update ob w)) = invoked w"
  "calls (after (call_update ob w)) = calls w @ (if has_update ob then [ob] else [])"
  by (cases ob; simp add: after_def controller_update_def)+

lemma notify_loop_model: "model (after (notify_loop obs w)) = model w"
proof (induction obs arbitrary: w)
  case Nil
  show ?case by (simp add: after_def)
next
  case (Cons ob obs)
  show ?case
  proof (cases "call_update ob w")
    case (Inl x)
    then show ?thesis using call_update_frame(1) [of ob w] by (simp add: after_def)
  next
    case (Inr w')
    then show ?thesis using call_update_frame(1) [of ob w] Cons.IH [of w'] by (simp add: after_def)
  qed
qed

lemma notify_loop_invoked: "invoked (after (notify_loop obs w)) = invoked w"
proof (induction obs arbitrary: w)
  case Nil
  show ?case by (simp add: after_def)
next
  case (Cons ob obs)
  show ?case
  proof (cases "call_update ob w")
    case (Inl x)
    then show ?thesis using call_update_frame(2) [of ob w] by (simp add: after_def)
  next
    case (Inr w')
    then show ?thesis using call_update_frame(2) [of ob w] Cons.IH [of w'] by (simp add: after_def)
  qed
qed

lemma notify_loop_calls:
  "\<exists>ys. calls (after (notify_loop obs w)) = calls w @ ys \<and> set ys \<subseteq> set obs"
proof (induction obs arbitrary: w)
  case Nil
  show ?case by (simp add: after_def)
next
  case (Cons ob obs)
  show ?case
  proof (cases "call_update ob w")
    case (Inl x)
    then have "calls (after (notify_loop (ob # obs) w)) = calls w @ (if has_update ob then [ob] else [])"
      using call_update_frame(3) [of ob w] by (simp add: after_def)
    then show ?thesis by auto
  next
    case (Inr w')
    from Cons.IH [of w'] obtain ys where
      ys: "calls (after (notify_loop obs w')) = calls w' @ ys" "set ys \<subseteq> set obs" by blast
    have "calls w' = calls w @ (if has_update ob then [ob] else [])"
      using Inr call_update_frame(3) [of ob w] by (simp add: after_def)
    with ys Inr have "calls (after (notify_loop (ob # obs) w)) = calls w @ ((if has_update ob then [ob] else []) @ ys)"
      by simp
    moreover have "set ((if has_update ob then [ob] else []) @ ys) \<subseteq> set (ob # obs)"
      using ys(2) by auto
    ultimately show ?thesis by blast
  qed
qed

lemma mutator_frame:
  "model (after (increment w)) = (model w)\<lparr>count := count (model w) + 1\<rparr>"
  "model (after (reset w)) = (model w)\<lparr>count := 0\<rparr>"
  "invoked (after (increment w)) = invoked w"
  "invoked (after (reset w)) = invoked w"
  by (simp_all add: increment_def reset_def notify_observers_def notify_loop_model notify_loop_invoked)

lemma exec_op_invoked: "invoked (after (exec_op x w)) = invoked w"
proof (cases x)
  case Increment
  then show ?thesis by (simp add: mutator_frame)
next
  case Reset
  then show ?thesis by (simp add: mutator_frame)
next
  case (AddObserver ob)
  then show ?thesis by (simp add: add_observer_def after_def)
next
  case (RemoveObserver ob)
  then show ?thesis by (simp add: remove_observer_eq after_def)
qed

lemma mutator_calls:
  "\<exists>ys. calls (after (increment w)) = calls w @ ys \<and> set ys \<subseteq> set (observers (model w))"
  "\<exists>ys. calls (after (reset w)) = calls w @ ys \<and> set ys \<subseteq> set (observers (model w))"
  using notify_loop_calls [of "observers (model w)" "w\<lparr>model := (model w)\<lparr>count := count (model w) + 1\<rparr>\<rparr>"]
        notify_loop_calls [of "observers (model w)" "w\<lparr>model := (model w)\<lparr>count := 0\<rparr>\<rparr>"]
  by (simp_all add: increment_def reset_def notify_observers_def)

lemma exec_op_absent:
  assumes "s \<notin> set (observers (model w))" "x \<noteq> AddObserver s"
  shows "s \<notin> set (observers (model (after (exec_op x w)))) \<and>
         (\<exists>ys. calls (after (exec_op x w)) = calls w @ ys \<and> s \<notin> set ys)"
proof (cases x)
  case Increment
  from mutator_calls(1) [of w] obtain ys where
    "calls (after (increment w)) = calls w @ ys" "set ys \<subseteq> set (observers (model w))" by blast
  with assms Increment show ?thesis by (auto simp add: mutator_frame)
next
  case Reset
  from mutator_calls(2) [of w] obtain ys where
    "calls (after (reset w)) = calls w @ ys" "set ys \<subseteq> set (observers (model w))" by blast
  with assms Reset show ?thesis by (auto simp add: mutator_frame)
next
  case (AddObserver ob)
  with assms show ?thesis by (auto simp add: add_observer_def after_def)
next
  case (RemoveObserver ob)
  with assms show ?thesis
    by (auto simp add: remove_observer_eq after_def dest: notin_set_remove1)
qed

lemma run_ops_absent:
  assumes "s \<notin> set (observers (model w))" "AddObserver s \<notin> set ops"
  shows "s \<notin> set (observers (model (run_ops w ops))) \<and>
         (\<exists>ys. calls (run_ops w ops) = calls w @ ys \<and> s \<notin> set ys)"
  using assms(2)
proof (induction ops rule: rev_induct)
  case Nil
  from assms(1) show ?case by (simp add: run_ops_Nil)
next
  case (snoc x ops)
  then have IH: "s \<notin> set (observers (model (run_ops w ops)))"
    and "\<exists>ys. calls (run_ops w ops) = calls w @ ys \<and> s \<notin> set ys" by auto
  then obtain ys where ys: "calls (run_ops w ops) = calls w @ ys" "s \<notin> set ys" by blast
  from snoc.prems have "x \<noteq> AddObserver s" by auto
  from exec_op_absent [OF IH this] obtain zs where
    a: "s \<notin> set (observers (model (after (exec_op x (run_ops w ops)))))"
    and zs: "calls (after (exec_op x (run_ops w ops))) = calls (run_ops w ops) @ zs" "s \<notin> set zs"
    by blast
  from ys zs have "calls (run_ops w (ops @ [x])) = calls w @ (ys @ zs) \<and> s \<notin> set (ys @ zs)"
    by (simp add: run_ops_snoc)
  with a show ?case unfolding run_ops_snoc by blast
qed

lemma count_list_remove1: "count_list (remove1 x xs) x = count_list xs x - 1"
  by (induction xs) auto

lemma count_list_le1_remove1: "count_list xs x \<le> 1 \<Longrightarrow> x \<notin> set (remove1 x xs)"
  using count_list_remove1 [of x xs] count_list_0_iff [of "remove1 x xs" x] by simp

lemma exec_op_count:
  "count (model (after (exec_op x w))) =
     (case x of Increment \<Rightarrow> count (model w) + 1 | Reset \<Rightarrow> 0 | _ \<Rightarrow> count (model w))"
proof (cases x)
  case Increment
  then show ?thesis by (simp add: mutator_frame)
next
  case Reset
  then show ?thesis by (simp add: mutator_frame)
next
  case (AddObserver ob)
  then show ?thesis by (simp add: add_observer_def after_def)
next
  case (RemoveObserver ob)
  then show ?thesis by (simp add: remove_observer_eq after_def)
qed

lemma increments_since_reset_snoc:
  "increments_since_reset (ops @ [x]) =
     (case x of Increment \<Rightarrow> Suc (increments_since_reset ops) | Reset \<Rightarrow> 0
      | _ \<Rightarrow> increments_since_reset ops)"
  by (cases x) (simp_all add: increments_since_reset_def)

lemma run_ops_count:
  "count (model w) = 0 \<Longrightarrow> count (model (run_ops w ops)) = int (increments_since_reset ops)"
proof (induction ops rule: rev_induct)
  case Nil
  then show ?case by (simp add: run_ops_Nil increments_since_reset_def)
next
  case (snoc x ops)
  then show ?case
    by (simp add: run_ops_snoc exec_op_count increments_since_reset_snoc split: op.splits)
qed

lemma reachable_ok: "observers_ok (run_ops (new_world v) ops)"
  by (rule run_ops_ok [OF new_world_ok])

lemma call_callback_invoked: "invoked (after (call_callback cb w)) = invoked w @ [cb]"
  by (cases cb)
     (simp_all add: controller_on_click_def controller_on_reset_def mutator_frame, simp add: after_def)

lemma in_sync_invoked: "in_sync (w\<lparr>invoked := xs\<rparr>) = in_sync w"
  by (simp add: in_sync_def observers_ok_def)

lemma in_sync_increment: "in_sync w \<Longrightarrow> in_sync (after (increment w))"
  by (simp add: in_sync_def increment_ok after_def)
     (simp add: observers_ok_def get_count_def update_display_listeners)

lemma in_sync_reset: "in_sync w \<Longrightarrow> in_sync (after (reset w))"
  by (simp add: in_sync_def reset_ok after_def)
     (simp add: observers_ok_def get_count_def update_display_listeners)

lemma in_sync_callback: "in_sync w \<Longrightarrow> in_sync (after (call_callback cb w))"
proof (cases cb)
  case Controller_on_click
  assume "in_sync w"
  then have "in_sync (w\<lparr>invoked := invoked w @ [Controller_on_click]\<rparr>)"
    by (simp add: in_sync_invoked)
  from in_sync_increment [OF this] show ?thesis
    using Controller_on_click by (simp add: controller_on_click_def)
next
  case Controller_on_reset
  assume "in_sync w"
  then have "in_sync (w\<lparr>invoked := invoked w @ [Controller_on_reset]\<rparr>)"
    by (simp add: in_sync_invoked)
  from in_sync_reset [OF this] show ?thesis
    using Controller_on_reset by (simp add: controller_on_reset_def)
next
  case (Callable n)
  assume "in_sync w"
  then show ?thesis using Callable by (simp add: after_def in_sync_invoked)
qed

lemma in_sync_view_slots:
  "in_sync (set_click_listener cb w) = in_sync w"
  "in_sync (set_reset_listener cb w) = in_sync w"
  by (simp_all add: in_sync_def observers_ok_def set_click_listener_def set_reset_listener_def)

lemma in_sync_op:
  assumes "in_sync w" "x \<noteq> RemoveObserver ControllerInst"
  shows "in_sync (after (exec_op x w))"
proof (cases x)
  case Increment
  with assms(1) show ?thesis by (simp add: in_sync_increment)
next
  case Reset
  with assms(1) show ?thesis by (simp add: in_sync_reset)
next
  case (AddObserver ob)
  with assms(1) show ?thesis
    by (simp add: in_sync_def observers_ok_def add_observer_def after_def get_count_def)
next
  case (RemoveObserver ob)
  with assms(2) have ne: "ControllerInst \<noteq> ob" by auto
  have ok: "observers_ok (after (exec_op x w))"
    using assms(1) by (simp add: in_sync_def exec_op_ok)
  from assms(1) ne RemoveObserver ok show ?thesis
    by (simp add: in_sync_def remove_observer_eq after_def get_count_def)
qed

lemma in_sync_event:
  assumes s: "in_sync w" and k: "keeps_wiring x"
  shows "in_sync (after (exec_event x w))"
proof (cases x)
  case ClickPressed
  show ?thesis
  proof (cases "click_listener (view w)")
    case None
    with s ClickPressed show ?thesis by (simp add: on_click_pressed_def after_def)
  next
    case (Some cb)
    with in_sync_callback [OF s, of cb] ClickPressed show ?thesis
      by (simp add: on_click_pressed_def)
  qed
next
  case ResetPressed
  show ?thesis
  proof (cases "reset_listener (view w)")
    case None
    with s ResetPressed show ?thesis by (simp add: on_reset_pressed_def after_def)
  next
    case (Some cb)
    with in_sync_callback [OF s, of cb] ResetPressed show ?thesis
      by (simp add: on_reset_pressed_def)
  qed
next
  case (ModelCall y)
  with k have "y \<noteq> RemoveObserver ControllerInst" by auto
  from in_sync_op [OF s this] ModelCall show ?thesis by simp
next
  case (SetClickListener cb)
  with s show ?thesis by (simp add: after_def in_sync_view_slots)
next
  case (SetResetListener cb)
  with s show ?thesis by (simp add: after_def in_sync_view_slots)
next
  case (DisplayCall c)
  with k show ?thesis by simp
qed

lemma run_events_snoc: "run_events w (evs @ [x]) = after (exec_event x (run_events w evs))"
  by (simp add: run_events_def)

lemma in_sync_run_events:
  "in_sync w \<Longrightarrow> list_all keeps_wiring evs \<Longrightarrow> in_sync (run_events w evs)"
proof (induction evs rule: rev_induct)
  case Nil
  then show ?case by (simp add: run_events_def)
next
  case (snoc x evs)
  then show ?case by (simp add: run_events_snoc in_sync_event)
qed

lemma call_callback_model:
  "model (after (call_callback Controller_on_click w)) = (model w)\<lparr>count := count (model w) + 1\<rparr>"
  "model (after (call_callback Controller_on_reset w)) = (model w)\<lparr>count := 0\<rparr>"
  by (simp_all add: controller_on_click_def controller_on_reset_def mutator_frame)

lemma controller_init_in_sync:
  "observers_ok w \<Longrightarrow> \<exists>w1. controller_init w = Inr w1 \<and> in_sync w1"
  by (simp add: controller_init_def add_observer_def set_click_listener_def
      set_reset_listener_def controller_update_def in_sync_def observers_ok_def
      update_display_listeners Let_def)


lemmas eval_defs =
  run_ops_def run_events_def after_def add_observer_def remove_observer_def increment_def
  reset_def notify_observers_def new_world_def ClickCounterModel_init_def
  ClickCounterView_init_def controller_update_def get_count_def update_display_def
  py_str_def str_nat.simps digit_char_def new_calls_def Let_def increments_since_reset_def
  on_click_pressed_def on_reset_pressed_def set_click_listener_def set_reset_listener_def
  controller_on_click_def controller_on_reset_def controller_init_def

section \<open>Properties\<close>

text \<open>
  In the statements below a state of the program is \<open>run_ops (new_world v) ops\<close>: a
  model just constructed, beside any view \<open>v\<close>, after any sequence \<open>ops\<close> of calls of
  its public methods. \<open>after\<close> reads the state a call leaves.
\<close>

subsection \<open>C1: the counter\<close>

text \<open>
  C1. After every prefix \<open>take n ops\<close> of any sequence of calls on a model just
  constructed, the counter is not negative and \<^verbatim>\<open>get_count()\<close> is the number of
  \<^verbatim>\<open>increment()\<close> calls since the last \<^verbatim>\<open>reset()\<close>, or since construction when there
  was none. Calls of \<^verbatim>\<open>add_observer\<close> and \<^verbatim>\<open>remove_observer\<close> may be mixed in.
\<close>

theorem counter_invariant:
  "0 \<le> get_count (model (run_ops (new_world v) (take n ops))) \<and>
   get_count (model (run_ops (new_world v) (take n ops))) = int (increments_since_reset (take n ops))"
proof -
  have "count (model (new_world v)) = 0"
    by (simp add: new_world_def ClickCounterModel_init_def)
  from run_ops_count [OF this, of "take n ops"] show ?thesis
    by (simp add: get_count_def)
qed

text \<open>C1 at the calls increment, reset, increment, increment: the counter is 2.\<close>

theorem counter_invariant_witness:
  "get_count (model (run_ops (new_world ClickCounterView_init)
      (take 4 [Increment, Reset, Increment, Increment, Reset]))) = 2"
  using counter_invariant [where v = ClickCounterView_init and n = 4
      and ops = "[Increment, Reset, Increment, Increment, Reset]"]
  by (simp add: increments_since_reset_def)

subsection \<open>C2: every registration is notified once, in order\<close>




subsection \<open>C3: increment\<close>

text \<open>
  C3. In every reachable state \<^verbatim>\<open>increment()\<close> returns normally; the counter is the
  previous value plus 1, the observer list is unchanged, and every entry of the list
  has been notified, in order. The notifications come after the addition: when the
  controller is registered, the label shows the new value on return.
\<close>

theorem increment_total:
  "let w = run_ops (new_world v) ops in
   \<exists>w'. increment w = Inr w' \<and>
     get_count (model w') = get_count (model w) + 1 \<and>
     observers (model w') = observers (model w) \<and>
     new_calls w w' = observers (model w) \<and>
     (ControllerInst \<in> set (observers (model w)) \<longrightarrow>
        count_display_text (view w') = py_str (get_count (model w) + 1))"
  unfolding Let_def
  using increment_ok [OF reachable_ok, of v ops]
  by (simp add: new_calls_def get_count_def update_display_listeners)

text \<open>C3 with the controller registered and the counter at 1: the label shows 2.\<close>

theorem increment_total_witness:
  "ControllerInst \<in> set (observers (model (run_ops (new_world ClickCounterView_init)
      [AddObserver ControllerInst, Increment]))) \<and>
   count_display_text (view (after (increment (run_ops (new_world ClickCounterView_init)
      [AddObserver ControllerInst, Increment])))) = ''2''"
  using increment_total [where v = ClickCounterView_init
      and ops = "[AddObserver ControllerInst, Increment]"]
  by (simp add: eval_defs)

subsection \<open>C4: reset twice\<close>




subsection \<open>C5: add_observer\<close>

text \<open>
  C5 does not hold as "every object with a no-argument update method is accepted": an
  object that has such a method, of a class that does not derive from \<^verbatim>\<open>Observer\<close>, is
  refused with TypeError.
\<close>

theorem add_observer_duck_rejected:
  "has_update (DuckInst 0) \<and>
   add_observer (DuckInst 0) (new_world ClickCounterView_init) =
     Inl (TypeError, new_world ClickCounterView_init)"
  by (simp add: add_observer_def)

text \<open>
  C5, as the code has it. \<^verbatim>\<open>add_observer\<close> raises exactly when the argument is not an
  instance of \<^verbatim>\<open>Observer\<close>; it then raises TypeError and leaves the state, and so the
  observer list, unchanged. Otherwise the argument, which has an \<^verbatim>\<open>update\<close> method, is
  appended at the end of the list and nothing else changes.
\<close>

theorem add_observer_nominal:
  "((\<exists>x. add_observer ob w = Inl x) \<longleftrightarrow> \<not> isinstance_Observer ob) \<and>
   (\<not> isinstance_Observer ob \<longrightarrow> add_observer ob w = Inl (TypeError, w)) \<and>
   (isinstance_Observer ob \<longrightarrow>
      has_update ob \<and>
      add_observer ob w = Inr (w\<lparr>model := (model w)\<lparr>observers := observers (model w) @ [ob]\<rparr>\<rparr>))"
  by (cases ob) (simp_all add: add_observer_def)

text \<open>C5 at an object without \<^verbatim>\<open>update\<close> (refused) and at an observer (appended).\<close>

theorem add_observer_nominal_witness:
  "\<not> isinstance_Observer (PlainInst 0) \<and>
   add_observer (PlainInst 0) (new_world ClickCounterView_init) =
     Inl (TypeError, new_world ClickCounterView_init) \<and>
   isinstance_Observer (ObserverInst 0) \<and>
   observers (model (after (add_observer (ObserverInst 0) (new_world ClickCounterView_init)))) =
     [ObserverInst 0]"
  using add_observer_nominal [where ob = "PlainInst 0" and w = "new_world ClickCounterView_init"]
    add_observer_nominal [where ob = "ObserverInst 0" and w = "new_world ClickCounterView_init"]
  by (simp add: eval_defs)

subsection \<open>C6: remove_observer\<close>

text \<open>
  C6. \<^verbatim>\<open>remove_observer\<close> never raises. When the argument is in the list, its first
  occurrence is removed and the rest of the list, later occurrences included, stays as
  it was; when it is not in the list, the state is unchanged.
\<close>

theorem remove_observer_first_or_noop:
  "(ob \<notin> set xs \<longrightarrow>
      remove_observer ob (w\<lparr>model := (model w)\<lparr>observers := xs @ ob # ys\<rparr>\<rparr>) =
        Inr (w\<lparr>model := (model w)\<lparr>observers := xs @ ys\<rparr>\<rparr>)) \<and>
   (ob \<notin> set (observers (model w)) \<longrightarrow> remove_observer ob w = Inr w)"
  by (simp add: remove_observer_eq remove1_append remove1_idem)

text \<open>C6 on a list that holds the argument twice, and on the empty list.\<close>

theorem remove_observer_first_or_noop_witness:
  "ObserverInst 2 \<notin> set [ObserverInst 1] \<and>
   observers (model (after (remove_observer (ObserverInst 2)
      ((new_world ClickCounterView_init)\<lparr>model := (model (new_world ClickCounterView_init))
          \<lparr>observers := [ObserverInst 1] @ ObserverInst 2 # [ObserverInst 3, ObserverInst 2]\<rparr>\<rparr>)))) =
     [ObserverInst 1, ObserverInst 3, ObserverInst 2] \<and>
   ObserverInst 4 \<notin> set (observers (model (new_world ClickCounterView_init))) \<and>
   remove_observer (ObserverInst 4) (new_world ClickCounterView_init) =
     Inr (new_world ClickCounterView_init)"
  using remove_observer_first_or_noop [where ob = "ObserverInst 2" and xs = "[ObserverInst 1]"
      and w = "new_world ClickCounterView_init" and ys = "[ObserverInst 3, ObserverInst 2]"]
    remove_observer_first_or_noop [where ob = "ObserverInst 4" and xs = "[]"
      and w = "new_world ClickCounterView_init" and ys = "[]"]
  by (simp add: eval_defs)

subsection \<open>C7: after remove_observer\<close>

text \<open>
  C7 does not hold for an observer that is registered twice: after two
  \<^verbatim>\<open>add_observer(s)\<close> and one \<^verbatim>\<open>remove_observer(s)\<close>, an \<^verbatim>\<open>increment()\<close> still calls
  \<^verbatim>\<open>s.update()\<close>.
\<close>

theorem unsubscribe_duplicate_still_notified:
  "calls (run_ops (new_world ClickCounterView_init)
      [AddObserver (ObserverInst 0), AddObserver (ObserverInst 0),
       RemoveObserver (ObserverInst 0), Increment]) = [ObserverInst 0]"
  by (simp add: run_ops_def after_def add_observer_def remove_observer_def increment_def
      notify_observers_def new_world_def ClickCounterModel_init_def)

text \<open>
  C7, for an observer registered at most once. From any state in which \<open>s\<close> occurs at
  most once in the observer list, after \<^verbatim>\<open>remove_observer(s)\<close> no sequence of calls that
  does not register \<open>s\<close> again enters \<^verbatim>\<open>s.update()\<close>.
\<close>

theorem unsubscribe_single_registration:
  assumes "count_list (observers (model w)) s \<le> 1" "AddObserver s \<notin> set ops"
  shows "s \<notin> set (new_calls (after (remove_observer s w))
                     (run_ops (after (remove_observer s w)) ops))"
proof -
  let ?w1 = "after (remove_observer s w)"
  have "s \<notin> set (observers (model ?w1))"
    using assms(1) by (simp add: remove_observer_eq after_def count_list_le1_remove1)
  from run_ops_absent [OF this assms(2)] obtain ys where
    "calls (run_ops ?w1 ops) = calls ?w1 @ ys" "s \<notin> set ys" by blast
  then show ?thesis by (simp add: new_calls_def)
qed

text \<open>C7 with two observers, the first of them removed, then an increment and a
  reset.\<close>

theorem unsubscribe_single_registration_witness:
  "count_list (observers (model (run_ops (new_world ClickCounterView_init)
      [AddObserver (ObserverInst 0), AddObserver (ObserverInst 1)]))) (ObserverInst 0) \<le> 1 \<and>
   AddObserver (ObserverInst 0) \<notin> set [Increment, Reset] \<and>
   ObserverInst 0 \<notin> set (new_calls
      (after (remove_observer (ObserverInst 0) (run_ops (new_world ClickCounterView_init)
         [AddObserver (ObserverInst 0), AddObserver (ObserverInst 1)])))
      (run_ops (after (remove_observer (ObserverInst 0) (run_ops (new_world ClickCounterView_init)
         [AddObserver (ObserverInst 0), AddObserver (ObserverInst 1)]))) [Increment, Reset]))"
  using unsubscribe_single_registration [where w = "run_ops (new_world ClickCounterView_init)
      [AddObserver (ObserverInst 0), AddObserver (ObserverInst 1)]" and s = "ObserverInst 0"
      and ops = "[Increment, Reset]"]
  by (simp add: eval_defs)

subsection \<open>C8: the press handlers\<close>

text \<open>
  C8. A press while the slot of the button is None returns at once and changes
  nothing. A press while the slot holds a callback is the call of that callback: it
  enters that callback and no other, and does what the callback does. So with the
  controller's \<^verbatim>\<open>_on_click\<close> in the slot a press is \<^verbatim>\<open>increment()\<close> on the model and
  the counter grows by 1, with \<^verbatim>\<open>_on_reset\<close> it is \<^verbatim>\<open>reset()\<close> and the counter is 0,
  and with another callable only that callable is entered.
  \<^verbatim>\<open>set_click_listener\<close> and \<^verbatim>\<open>set_reset_listener\<close> overwrite the slot, so after two
  of them a press enters the callback set last.
\<close>

theorem press_handlers:
  "(click_listener (view w) = None \<longrightarrow> on_click_pressed w = Inr w) \<and>
   (reset_listener (view w) = None \<longrightarrow> on_reset_pressed w = Inr w) \<and>
   (click_listener (view w) = Some cb \<longrightarrow>
      on_click_pressed w = call_callback cb w \<and>
      invoked (after (on_click_pressed w)) = invoked w @ [cb]) \<and>
   (reset_listener (view w) = Some cb \<longrightarrow>
      on_reset_pressed w = call_callback cb w \<and>
      invoked (after (on_reset_pressed w)) = invoked w @ [cb]) \<and>
   call_callback Controller_on_click w =
     increment (w\<lparr>invoked := invoked w @ [Controller_on_click]\<rparr>) \<and>
   call_callback Controller_on_reset w =
     reset (w\<lparr>invoked := invoked w @ [Controller_on_reset]\<rparr>) \<and>
   call_callback (Callable n) w = Inr (w\<lparr>invoked := invoked w @ [Callable n]\<rparr>) \<and>
   (click_listener (view w) = Some Controller_on_click \<longrightarrow>
      get_count (model (after (on_click_pressed w))) = get_count (model w) + 1 \<and>
      observers (model (after (on_click_pressed w))) = observers (model w)) \<and>
   (reset_listener (view w) = Some Controller_on_reset \<longrightarrow>
      get_count (model (after (on_reset_pressed w))) = 0 \<and>
      observers (model (after (on_reset_pressed w))) = observers (model w)) \<and>
   click_listener (view (set_click_listener new_cb (set_click_listener old_cb w))) = new_cb \<and>
   reset_listener (view (set_reset_listener new_cb (set_reset_listener old_cb w))) = new_cb \<and>
   on_click_pressed (set_click_listener (Some cb) (set_click_listener old_cb w)) =
     call_callback cb (set_click_listener (Some cb) w) \<and>
   on_reset_pressed (set_reset_listener (Some cb) (set_reset_listener old_cb w)) =
     call_callback cb (set_reset_listener (Some cb) w) \<and>
   invoked (after (on_click_pressed (set_click_listener (Some cb) (set_click_listener old_cb w)))) =
     invoked w @ [cb] \<and>
   invoked (after (on_reset_pressed (set_reset_listener (Some cb) (set_reset_listener old_cb w)))) =
     invoked w @ [cb]"
proof -
  have slot_click: "click_listener (view w) = Some cb \<Longrightarrow> on_click_pressed w = call_callback cb w"
    by (simp add: on_click_pressed_def)
  have slot_reset: "reset_listener (view w) = Some cb \<Longrightarrow> on_reset_pressed w = call_callback cb w"
    by (simp add: on_reset_pressed_def)
  have click_count: "click_listener (view w) = Some Controller_on_click \<Longrightarrow>
      get_count (model (after (on_click_pressed w))) = get_count (model w) + 1 \<and>
      observers (model (after (on_click_pressed w))) = observers (model w)"
    by (simp add: on_click_pressed_def call_callback_model get_count_def
        del: call_callback.simps)
  have reset_count: "reset_listener (view w) = Some Controller_on_reset \<Longrightarrow>
      get_count (model (after (on_reset_pressed w))) = 0 \<and>
      observers (model (after (on_reset_pressed w))) = observers (model w)"
    by (simp add: on_reset_pressed_def call_callback_model get_count_def
        del: call_callback.simps)
  have none: "(click_listener (view w) = None \<longrightarrow> on_click_pressed w = Inr w) \<and>
      (reset_listener (view w) = None \<longrightarrow> on_reset_pressed w = Inr w)"
    by (simp add: on_click_pressed_def on_reset_pressed_def)
  have bodies: "call_callback Controller_on_click w =
       increment (w\<lparr>invoked := invoked w @ [Controller_on_click]\<rparr>) \<and>
     call_callback Controller_on_reset w =
       reset (w\<lparr>invoked := invoked w @ [Controller_on_reset]\<rparr>) \<and>
     call_callback (Callable n) w = Inr (w\<lparr>invoked := invoked w @ [Callable n]\<rparr>)"
    by (simp add: controller_on_click_def controller_on_reset_def)
  have over: "click_listener (view (set_click_listener new_cb (set_click_listener old_cb w))) = new_cb \<and>
      reset_listener (view (set_reset_listener new_cb (set_reset_listener old_cb w))) = new_cb \<and>
      on_click_pressed (set_click_listener (Some cb) (set_click_listener old_cb w)) =
        call_callback cb (set_click_listener (Some cb) w) \<and>
      on_reset_pressed (set_reset_listener (Some cb) (set_reset_listener old_cb w)) =
        call_callback cb (set_reset_listener (Some cb) w)"
    by (simp add: on_click_pressed_def on_reset_pressed_def set_click_listener_def
        set_reset_listener_def)
  have logged: "invoked (after (on_click_pressed (set_click_listener (Some cb) (set_click_listener old_cb w)))) =
        invoked w @ [cb] \<and>
      invoked (after (on_reset_pressed (set_reset_listener (Some cb) (set_reset_listener old_cb w)))) =
        invoked w @ [cb]"
    by (simp add: on_click_pressed_def on_reset_pressed_def call_callback_invoked
        set_click_listener_def set_reset_listener_def)
  from slot_click slot_reset click_count reset_count none bodies over logged show ?thesis
    by (simp add: call_callback_invoked)
qed

text \<open>C8 on a new view, and after setting one callback in each slot: the click
  leaves the counter at 1.\<close>

theorem press_handlers_witness:
  "click_listener (view (new_world ClickCounterView_init)) = None \<and>
   on_click_pressed (new_world ClickCounterView_init) = Inr (new_world ClickCounterView_init) \<and>
   reset_listener (view (new_world ClickCounterView_init)) = None \<and>
   on_reset_pressed (new_world ClickCounterView_init) = Inr (new_world ClickCounterView_init) \<and>
   click_listener (view (set_click_listener (Some Controller_on_click)
      (new_world ClickCounterView_init))) = Some Controller_on_click \<and>
   invoked (after (on_click_pressed (set_click_listener (Some Controller_on_click)
      (new_world ClickCounterView_init)))) = [Controller_on_click] \<and>
   get_count (model (after (on_click_pressed (set_click_listener (Some Controller_on_click)
      (new_world ClickCounterView_init))))) = 1 \<and>
   reset_listener (view (set_reset_listener (Some (Callable 7))
      (new_world ClickCounterView_init))) = Some (Callable 7) \<and>
   invoked (after (on_reset_pressed (set_reset_listener (Some (Callable 7))
      (new_world ClickCounterView_init)))) = [Callable 7]"
  using press_handlers [where w = "new_world ClickCounterView_init" and cb = Controller_on_click
      and old_cb = None and new_cb = None]
    press_handlers [where w = "set_click_listener (Some Controller_on_click)
      (new_world ClickCounterView_init)" and cb = Controller_on_click and old_cb = None and new_cb = None]
    press_handlers [where w = "set_reset_listener (Some (Callable 7))
      (new_world ClickCounterView_init)" and cb = "Callable 7" and old_cb = None and new_cb = None]
  by (simp add: eval_defs)

subsection \<open>C9: the label shows the count\<close>

text \<open>
  C9 does not hold at any point whatever after construction. Once the controller is
  unregistered with \<^verbatim>\<open>remove_observer\<close>, a click leaves the counter at 1 and the
  label at "0"; and a call of \<^verbatim>\<open>update_display(5)\<close> from elsewhere leaves the label at
  "5" and the counter at 0.
\<close>

theorem display_stale_after_unregistering:
  "get_count (model (run_events (after (controller_init (new_world ClickCounterView_init)))
      [ModelCall (RemoveObserver ControllerInst), ClickPressed])) = 1 \<and>
   count_display_text (view (run_events (after (controller_init (new_world ClickCounterView_init)))
      [ModelCall (RemoveObserver ControllerInst), ClickPressed])) = ''0'' \<and>
   get_count (model (run_events (after (controller_init (new_world ClickCounterView_init)))
      [DisplayCall 5])) = 0 \<and>
   count_display_text (view (run_events (after (controller_init (new_world ClickCounterView_init)))
      [DisplayCall 5])) = ''5''"
  by (simp add: eval_defs)

text \<open>
  C9, while the wiring stays. Constructing the controller on any reachable model and
  any view returns normally, and from then on the text of the label is \<^verbatim>\<open>str\<close> of
  \<^verbatim>\<open>get_count()\<close> after any sequence (the empty one included) of button presses and of
  calls of the public methods of the model and of the listener setters of the view,
  as long as the controller is not unregistered and \<^verbatim>\<open>update_display\<close> is called by
  the controller only.
\<close>

theorem display_synchronized:
  "list_all keeps_wiring evs \<Longrightarrow>
   \<exists>w1. controller_init (run_ops (new_world v) ops) = Inr w1 \<and>
     count_display_text (view (run_events w1 evs)) =
       py_str (get_count (model (run_events w1 evs)))"
proof -
  assume k: "list_all keeps_wiring evs"
  from controller_init_in_sync [OF reachable_ok, of v ops] obtain w1 where
    w1: "controller_init (run_ops (new_world v) ops) = Inr w1" "in_sync w1" by blast
  from in_sync_run_events [OF w1(2) k] have "in_sync (run_events w1 evs)" .
  with w1(1) show ?thesis by (simp add: in_sync_def)
qed

text \<open>C9 at the events click, add an observer, reset, remove that observer, click,
  \<^verbatim>\<open>increment()\<close>: the label shows 2.\<close>

theorem display_synchronized_witness:
  "list_all keeps_wiring
     [ClickPressed, ModelCall (AddObserver (ObserverInst 1)), ResetPressed,
      ModelCall (RemoveObserver (ObserverInst 1)), ClickPressed, ModelCall Increment] \<and>
   count_display_text (view (run_events (after (controller_init (new_world ClickCounterView_init)))
     [ClickPressed, ModelCall (AddObserver (ObserverInst 1)), ResetPressed,
      ModelCall (RemoveObserver (ObserverInst 1)), ClickPressed, ModelCall Increment])) = ''2'' \<and>
   get_count (model (run_events (after (controller_init (new_world ClickCounterView_init)))
     [ClickPressed, ModelCall (AddObserver (ObserverInst 1)), ResetPressed,
      ModelCall (RemoveObserver (ObserverInst 1)), ClickPressed, ModelCall Increment])) = 2"
  using display_synchronized [where v = ClickCounterView_init and ops = "[]"
      and evs = "[ClickPressed, ModelCall (AddObserver (ObserverInst 1)), ResetPressed,
      ModelCall (RemoveObserver (ObserverInst 1)), ClickPressed, ModelCall Increment]"]
  by (simp add: eval_defs)

subsection \<open>C10: registering twice\<close>



end
